theory Spec2Isabelle
  imports Main "HOL-Library.AList"
begin

section \<open>Errors raised by the runtime\<close>

text \<open>
  Every \<open>raise\<close> of \<open>doozerlib/runtime.py\<close> that the properties below depend on is a
  constructor; its arguments are the values that the source formats into the message, in
  the order of the format string.
\<close>

datatype error =
    ValueError_assembly_name
      \<comment> \<open>"Assembly names may only consist of alphanumerics, ., and _, but not start or end
          with a dot (.)."\<close>
  | IndexError
      \<comment> \<open>the second element of \<open>name.split('/')\<close>, for a name without a slash\<close>
  | ValueError_name_in_bundle string string string
      \<comment> \<open>"Image ... has name_in_bundle=..., which is already taken by image ...": the
          distgit key, the name in bundle, the owner\<close>
  | DoozerFatalError_cycle string string
      \<comment> \<open>"... cannot be both a parent and dependent of ...": the child, the image\<close>
  | IOError_duplicate_distgit string string string
      \<comment> \<open>"Complete duplicate distgit and branch; something wrong with metadata: ... from ...
          and ...": the key, the config file, the config file seen before\<close>
  | RecursionError
      \<comment> \<open>the recursion limit of the interpreter is reached\<close>
  | DoozerFatalError_no_stage_branch string string
      \<comment> \<open>"--stage option specified and no stage branch named ... exists for ...": the stage
          branch, the URL\<close>
  | DoozerFatalError_no_target_branch string
      \<comment> \<open>"Requested target branch ... does not exist and no fallback provided"\<close>
  | DoozerFatalError_no_fallback_branch string
      \<comment> \<open>"Requested fallback branch ... does not exist"\<close>

text \<open>The values an error message names: the arguments of its format string.\<close>

fun named_in :: "error \<Rightarrow> string list" where
  "named_in ValueError_assembly_name = []"
| "named_in IndexError = []"
| "named_in (ValueError_name_in_bundle k n owner) = [k, n, owner]"
| "named_in (DoozerFatalError_cycle c i) = [c, i]"
| "named_in (IOError_duplicate_distgit k f g) = [k, f, g]"
| "named_in RecursionError = []"
| "named_in (DoozerFatalError_no_stage_branch b u) = [b, u]"
| "named_in (DoozerFatalError_no_target_branch b) = [b]"
| "named_in (DoozerFatalError_no_fallback_branch b) = [b]"

section \<open>Python string primitives\<close>

text \<open>
  Strings are lists of 8-bit characters, read as the code points 0 to 255; the character
  classes below are those of CPython on that range.
\<close>

definition startswith :: "string \<Rightarrow> string \<Rightarrow> bool" where
  "startswith s p = (take (length p) s = p)"

text \<open>The class of word characters of the \<open>re\<close> module on a \<open>str\<close> pattern:
  alphanumerics and the underscore.\<close>

definition py_word_char :: "char \<Rightarrow> bool" where
  "py_word_char c =
     (let n = (of_char c :: nat) in
        (48 \<le> n \<and> n \<le> 57) \<or> (65 \<le> n \<and> n \<le> 90) \<or> n = 95 \<or> (97 \<le> n \<and> n \<le> 122)
        \<or> n = 170 \<or> n = 178 \<or> n = 179 \<or> n = 181 \<or> n = 185 \<or> n = 186
        \<or> n = 188 \<or> n = 189 \<or> n = 190
        \<or> (192 \<le> n \<and> n \<le> 214) \<or> (216 \<le> n \<and> n \<le> 246) \<or> (248 \<le> n \<and> n \<le> 255))"

text \<open>\<open>re.fullmatch\<close> of one or more word characters or dots succeeds on the whole of \<open>s\<close>.\<close>

definition fullmatch_word_dot :: "string \<Rightarrow> bool" where
  "fullmatch_word_dot s = (s \<noteq> [] \<and> list_all (\<lambda>c. py_word_char c \<or> c = CHR ''.'') s)"

text \<open>Whitespace that \<open>int(s, 16)\<close> skips at both ends of \<open>s\<close>.\<close>

definition int_space :: "char \<Rightarrow> bool" where
  "int_space c =
     (let n = (of_char c :: nat) in (9 \<le> n \<and> n \<le> 13) \<or> n = 32 \<or> n = 133 \<or> n = 160)"

text \<open>Whitespace of \<open>str.strip()\<close> and \<open>str.split()\<close>.\<close>

definition str_space :: "char \<Rightarrow> bool" where
  "str_space c =
     (let n = (of_char c :: nat) in (9 \<le> n \<and> n \<le> 13) \<or> (28 \<le> n \<and> n \<le> 32) \<or> n = 133 \<or> n = 160)"

definition strip_by :: "(char \<Rightarrow> bool) \<Rightarrow> string \<Rightarrow> string" where
  "strip_by sp s = rev (dropWhile sp (rev (dropWhile sp s)))"

definition hex_digit :: "char \<Rightarrow> bool" where
  "hex_digit c =
     (let n = (of_char c :: nat) in
        (48 \<le> n \<and> n \<le> 57) \<or> (65 \<le> n \<and> n \<le> 70) \<or> (97 \<le> n \<and> n \<le> 102))"

text \<open>
  What may follow a digit of the literal: nothing, another digit, or one underscore that
  is itself followed by a digit.
\<close>

fun digits_tail :: "string \<Rightarrow> bool" where
  "digits_tail [] = True"
| "digits_tail (c # cs) =
     (if c = CHR ''_'' then (case cs of [] \<Rightarrow> False | d # ds \<Rightarrow> hex_digit d \<and> digits_tail ds)
      else hex_digit c \<and> digits_tail cs)"

definition digit_run :: "string \<Rightarrow> bool" where
  "digit_run s = (case s of [] \<Rightarrow> False | c # cs \<Rightarrow> hex_digit c \<and> digits_tail cs)"

definition strip_sign :: "string \<Rightarrow> string" where
  "strip_sign s =
     (case s of [] \<Rightarrow> [] | c # cs \<Rightarrow> if c = CHR ''+'' \<or> c = CHR ''-'' then cs else s)"

text \<open>The optional \<open>0x\<close> or \<open>0X\<close> prefix, after which one underscore is allowed.\<close>

definition strip_0x :: "string \<Rightarrow> string" where
  "strip_0x s =
     (case s of
        a # b # cs \<Rightarrow>
          if a = CHR ''0'' \<and> (b = CHR ''x'' \<or> b = CHR ''X'')
          then (case cs of [] \<Rightarrow> [] | u # ds \<Rightarrow> if u = CHR ''_'' then ds else cs)
          else s
      | _ \<Rightarrow> s)"

text \<open>\<open>int(s, 16)\<close> returns instead of raising \<open>ValueError\<close>.\<close>

definition int_base16_parses :: "string \<Rightarrow> bool" where
  "int_base16_parses s = digit_run (strip_0x (strip_sign (strip_by int_space s)))"

text \<open>Truth value of an optional string: neither \<open>None\<close> nor empty.\<close>

fun truthy :: "string option \<Rightarrow> bool" where
  "truthy None = False"
| "truthy (Some s) = (s \<noteq> [])"

text \<open>The string held by an optional string that has passed the truth test.\<close>

fun str_of :: "string option \<Rightarrow> string" where
  "str_of None = []"
| "str_of (Some s) = s"

section \<open>Assembly name validation in \<open>initialize\<close>\<close>

text \<open>
  Lines 432 to 438 of \<open>initialize\<close>: the first argument is
  \<open>group_config.assemblies.enabled\<close>, the second \<open>enable_assemblies\<close>; the result is
  the value of \<open>self.assembly\<close> afterwards.
\<close>

definition initialize_assembly :: "bool \<Rightarrow> bool \<Rightarrow> string \<Rightarrow> error + string option" where
  "initialize_assembly assemblies_enabled enable_assemblies assembly =
     (if assemblies_enabled \<or> enable_assemblies then
        (if \<not> fullmatch_word_dot assembly \<or> hd assembly = CHR ''.'' \<or> last assembly = CHR ''.''
         then Inl ValueError_assembly_name
         else Inr (Some assembly))
      else Inr None)"

section \<open>Branch detection\<close>

definition is_branch_commit_hash :: "string \<Rightarrow> bool" where
  "is_branch_commit_hash branch = (if length branch \<ge> 7 then int_base16_parses branch else False)"

record source_branches =
  target :: string
  fallback :: "string option"
  stage :: "string option"

record source_details =
  url :: string
  branches :: source_branches

text \<open>
  The remote is a function from the URL and the branch to the outcome of
  \<open>git ls-remote --heads url branch\<close>: \<open>None\<close> when the command fails after its retries,
  otherwise its standard output.
\<close>

type_synonym remote = "string \<Rightarrow> string \<Rightarrow> string option"

definition get_remote_branch_ref :: "remote \<Rightarrow> string \<Rightarrow> string \<Rightarrow> string option" where
  "get_remote_branch_ref ls_remote git_url b =
     (case ls_remote git_url b of
        None \<Rightarrow> None
      | Some out \<Rightarrow>
          (let result = strip_by str_space out in
           if result = [] \<and> is_branch_commit_hash b then Some b
           else if result \<noteq> [] then Some (takeWhile (\<lambda>c. \<not> str_space c) result)
           else None))"

text \<open>
  \<open>detect_remote_source_branch\<close>. The arguments before the source details are
  \<open>group_config.use_source_fallback_branch\<close>, \<open>self.stage\<close> and the remote. The result
  is the returned pair or the error raised, together with the list of the remote lookups
  made, in order.
\<close>

definition detect_remote_source_branch ::
  "string option \<Rightarrow> bool \<Rightarrow> remote \<Rightarrow> source_details \<Rightarrow>
     (error + string \<times> string) \<times> (string \<times> string) list" where
  "detect_remote_source_branch use_source_fallback_branch stage_flag ls_remote sd =
     (let git_url = url sd;
          bs = branches sd;
          swap = (use_source_fallback_branch = Some ''always'' \<and> truthy (fallback bs));
          b = (if swap then str_of (fallback bs) else target bs);
          fallback_branch =
            (if swap then None
             else if use_source_fallback_branch = Some ''never'' then None
             else fallback bs);
          stage_branch = (if stage_flag then stage bs else None)
      in
        if truthy stage_branch then
          (let sb = str_of stage_branch;
               result = get_remote_branch_ref ls_remote git_url sb
           in if truthy result then (Inr (sb, str_of result), [(git_url, sb)])
              else (Inl (DoozerFatalError_no_stage_branch sb git_url), [(git_url, sb)]))
        else if is_branch_commit_hash b then (Inr (b, b), [])
        else
          (let result = get_remote_branch_ref ls_remote git_url b
           in if truthy result then (Inr (b, str_of result), [(git_url, b)])
              else if \<not> truthy fallback_branch
              then (Inl (DoozerFatalError_no_target_branch b), [(git_url, b)])
              else
                (let fb = str_of fallback_branch;
                     result2 = get_remote_branch_ref ls_remote git_url fb
                 in if truthy result2
                    then (Inr (fb, str_of result2), [(git_url, b), (git_url, fb)])
                    else (Inl (DoozerFatalError_no_fallback_branch b),
                          [(git_url, b), (git_url, fb)]))))"

text \<open>The branch that the detection works on after the fallback mode is applied: the
  fallback when the mode is \<open>always\<close> and a fallback is given, otherwise the target.\<close>

definition effective_branch :: "string option \<Rightarrow> source_details \<Rightarrow> string" where
  "effective_branch use sd =
     (if use = Some ''always'' \<and> truthy (fallback (branches sd))
      then str_of (fallback (branches sd)) else target (branches sd))"

section \<open>Public upstream translation\<close>

text \<open>One entry of \<open>group_config.public_upstreams\<close>: the keys \<open>private\<close>, \<open>public\<close> and
  the optional \<open>public_branch\<close>.\<close>

record public_upstream =
  private_prefix :: string
  public_prefix :: string
  public_branch :: "string option"

text \<open>
  The loop of \<open>get_public_upstream\<close> over the rules. The contender is \<open>None\<close> until the
  three \<open>target_\<close> variables are assigned, then the triple of the private prefix, the
  public prefix and the public branch. The first argument is
  \<open>artcommonlib.util.convert_remote_git_to_https\<close>, which is not part of the sources and
  is a parameter here.
\<close>

fun upstream_loop ::
  "(string \<Rightarrow> string) \<Rightarrow> string \<Rightarrow> public_upstream list \<Rightarrow>
     (string \<times> string \<times> string option) option \<Rightarrow> (string \<times> string \<times> string option) option" where
  "upstream_loop conv remote_https [] tgt = tgt"
| "upstream_loop conv remote_https (upstream # rest) tgt =
     (let https_priv_prefix = conv (private_prefix upstream);
          https_pub_prefix = conv (public_prefix upstream)
      in if startswith remote_https (https_priv_prefix @ ''/'') \<or> remote_https = https_priv_prefix
         then
           (if (case tgt of
                  None \<Rightarrow> True
                | Some (target_priv_prefix, target_pub_prefix, _) \<Rightarrow>
                    target_priv_prefix = [] \<or> length https_priv_prefix > length target_pub_prefix)
            then upstream_loop conv remote_https rest
                   (Some (https_priv_prefix, https_pub_prefix, public_branch upstream))
            else upstream_loop conv remote_https rest tgt)
         else upstream_loop conv remote_https rest tgt)"

definition get_public_upstream ::
  "(string \<Rightarrow> string) \<Rightarrow> public_upstream list \<Rightarrow> string \<Rightarrow> string \<times> string option" where
  "get_public_upstream conv public_upstreams remote_git =
     (let remote_https = conv remote_git in
      if public_upstreams \<noteq> [] then
        (case upstream_loop conv remote_https public_upstreams None of
           Some (target_priv_prefix, target_pub_prefix, target_pub_branch) \<Rightarrow>
             if target_priv_prefix \<noteq> []
             then (target_pub_prefix @ drop (length target_priv_prefix) remote_https,
                   target_pub_branch)
             else (remote_https, None)
         | None \<Rightarrow> (remote_https, None))
      else (remote_https, None))"

text \<open>
  Modelled from the spec: \<open>artcommonlib.util.convert_remote_git_to_https\<close> is not part of
  the sources. The spec says that it normalizes a URL to https form, and that
  \<open>git@github.com:org/priv.git\<close> under the rule from \<open>git@github.com:org\<close> to
  \<open>https://example.com/pub\<close> becomes \<open>https://example.com/pub/priv\<close>. Here surrounding
  whitespace and trailing slashes are dropped, then a scheme (\<open>http\<close>, \<open>https\<close>,
  \<open>git\<close>, \<open>ssh\<close>) or \<open>git@\<close>, a \<open>.git\<close> suffix and a user name before \<open>@\<close>; the
  last colon, if any, separates the server from the path; \<open>https://\<close> is put in front.
\<close>

definition remove_prefix :: "string \<Rightarrow> string \<Rightarrow> string" where
  "remove_prefix s p = (if startswith s p then drop (length p) s else s)"

definition remove_suffix :: "string \<Rightarrow> string \<Rightarrow> string" where
  "remove_suffix s suf =
     (if length suf \<le> length s \<and> drop (length s - length suf) s = suf
      then take (length s - length suf) s else s)"

definition rstrip_slash :: "string \<Rightarrow> string" where
  "rstrip_slash s = rev (dropWhile (\<lambda>c. c = CHR ''/'') (rev s))"

definition after_at :: "string \<Rightarrow> string" where
  "after_at s = (if CHR ''@'' \<in> set s then tl (dropWhile (\<lambda>c. c \<noteq> CHR ''@'') s) else s)"

definition https_form :: "string \<Rightarrow> string" where
  "https_form s =
     (let u0 = rstrip_slash (strip_by str_space s);
          u1 = fold (\<lambda>p u. remove_prefix u p)
                 [''http://'', ''https://'', ''git://'', ''git@'', ''ssh://''] u0;
          u2 = remove_suffix u1 ''.git'';
          u3 = after_at u2
      in if CHR '':'' \<in> set u3
         then ''https://'' @ rev (tl (dropWhile (\<lambda>c. c \<noteq> CHR '':'') (rev u3))) @ ''/''
                @ rev (takeWhile (\<lambda>c. c \<noteq> CHR '':'') (rev u3))
         else ''https://'' @ u3)"

section \<open>Uniqueness and cycle checks of \<open>initialize\<close>\<close>

text \<open>\<open>s.split(d)\<close> for a one-character separator.\<close>

fun split_on :: "char \<Rightarrow> string \<Rightarrow> string list" where
  "split_on d [] = [[]]"
| "split_on d (c # cs) =
     (if c = d then [] # split_on d cs
      else (case split_on d cs of [] \<Rightarrow> [[c]] | x # xs \<Rightarrow> (c # x) # xs))"

text \<open>One item of \<open>image_name_data\<close>: its key and the \<open>name\<close> and \<open>name_in_bundle\<close>
  entries of its data.\<close>

record image_entry =
  entry_key :: string
  entry_name :: string
  entry_name_in_bundle :: "string option"

record name_maps =
  image_name_map :: "string \<rightharpoonup> string"
  name_in_bundle_map :: "string \<rightharpoonup> string"

text \<open>\<open>_register_name_in_bundle\<close>; both call sites pass \<open>img.key\<close> as the distgit key,
  which is also the value stored.\<close>

definition register_name_in_bundle :: "name_maps \<Rightarrow> string \<Rightarrow> string \<Rightarrow> error + name_maps" where
  "register_name_in_bundle m name_in_bundle distgit_key =
     (case name_in_bundle_map m name_in_bundle of
        Some owner \<Rightarrow> Inl (ValueError_name_in_bundle distgit_key name_in_bundle owner)
      | None \<Rightarrow> Inr (m\<lparr>name_in_bundle_map := (name_in_bundle_map m)(name_in_bundle \<mapsto> distgit_key)\<rparr>))"

text \<open>The loop over \<open>image_name_data.values()\<close>, lines 588 to 600.\<close>

fun register_names :: "image_entry list \<Rightarrow> name_maps \<Rightarrow> error + name_maps" where
  "register_names [] m = Inr m"
| "register_names (img # rest) m =
     (case split_on CHR ''/'' (entry_name img) of
        _ # short_name # _ \<Rightarrow>
          (let m1 = m\<lparr>image_name_map :=
                       (image_name_map m)(entry_name img \<mapsto> entry_key img,
                                          short_name \<mapsto> entry_key img)\<rparr>
           in if truthy (entry_name_in_bundle img) then
                (case register_name_in_bundle m1 (str_of (entry_name_in_bundle img)) (entry_key img) of
                   Inl e \<Rightarrow> Inl e
                 | Inr m2 \<Rightarrow> register_names rest m2)
              else
                (let short_name_without_ose =
                       (if startswith short_name ''ose-'' then drop 4 short_name else short_name)
                 in case register_name_in_bundle m1 short_name_without_ose (entry_key img) of
                      Inl e \<Rightarrow> Inl e
                    | Inr m2 \<Rightarrow>
                        (case register_name_in_bundle m2 (''ose-'' @ short_name_without_ose)
                                (entry_key img) of
                           Inl e \<Rightarrow> Inl e
                         | Inr m3 \<Rightarrow> register_names rest m3)))
      | _ \<Rightarrow> Inl IndexError)"

text \<open>
  An image metadata object, as far as \<open>runtime.py\<close> reads it. Objects are named by their
  distgit key: \<open>parent\<close> is the key of the parent object, or \<open>None\<close>, and \<open>children\<close>
  the keys of the child objects in list order. \<open>image_map\<close> is the list of its values in
  insertion order.
\<close>

record image =
  distgit_key :: string
  parent :: "string option"
  children :: "string list"

text \<open>
  The cycle check, lines 633 to 636. \<open>ImageMetadata.is_ancestor\<close> is not part of the
  sources and is a parameter: \<open>anc i c\<close> is \<open>image.is_ancestor(child)\<close> for the objects
  with keys \<open>i\<close> and \<open>c\<close>.
\<close>

fun cycle_check_children :: "(string \<Rightarrow> string \<Rightarrow> bool) \<Rightarrow> string \<Rightarrow> string list \<Rightarrow> error + unit" where
  "cycle_check_children anc i [] = Inr ()"
| "cycle_check_children anc i (child # rest) =
     (if anc i child then Inl (DoozerFatalError_cycle child i)
      else cycle_check_children anc i rest)"

fun cycle_check :: "(string \<Rightarrow> string \<Rightarrow> bool) \<Rightarrow> image list \<Rightarrow> error + unit" where
  "cycle_check anc [] = Inr ()"
| "cycle_check anc (i # rest) =
     (case cycle_check_children anc (distgit_key i) (children i) of
        Inl e \<Rightarrow> Inl e
      | Inr _ \<Rightarrow> cycle_check anc rest)"

text \<open>
  Modelled from the spec: \<open>ImageMetadata.is_ancestor\<close> is not part of the sources. The
  spec says that a node must not be its own ancestor; \<open>x.is_ancestor(y)\<close> holds when
  \<open>y\<close> is reached from \<open>x\<close> along parent links, here within a bounded number of steps.
\<close>

fun is_ancestor :: "image list \<Rightarrow> nat \<Rightarrow> string \<Rightarrow> string \<Rightarrow> bool" where
  "is_ancestor im 0 x y = False"
| "is_ancestor im (Suc n) x y =
     (case find (\<lambda>i. distgit_key i = x) im of
        None \<Rightarrow> False
      | Some i \<Rightarrow> (case parent i of None \<Rightarrow> False | Some p \<Rightarrow> p = y \<or> is_ancestor im n p y))"

text \<open>A metadata object as the duplicate check reads it; \<open>meta_branch\<close> is the value of
  \<open>meta.branch()\<close>.\<close>

record meta =
  meta_namespace :: string
  meta_name :: string
  meta_branch :: string
  config_filename :: string

definition collide_key :: "meta \<Rightarrow> string" where
  "collide_key m = meta_namespace m @ ''/'' @ meta_name m @ ''/#'' @ meta_branch m"

text \<open>The loop of lines 653 to 658 over the rpm metadata followed by the image metadata.\<close>

fun no_collide_loop :: "meta list \<Rightarrow> (string \<rightharpoonup> meta) \<Rightarrow> error + (string \<rightharpoonup> meta)" where
  "no_collide_loop [] seen = Inr seen"
| "no_collide_loop (m # rest) seen =
     (case seen (collide_key m) of
        Some other \<Rightarrow>
          Inl (IOError_duplicate_distgit (collide_key m) (config_filename m) (config_filename other))
      | None \<Rightarrow> no_collide_loop rest (seen(collide_key m \<mapsto> m)))"

definition no_collide_check :: "meta list \<Rightarrow> meta list \<Rightarrow> error + (string \<rightharpoonup> meta)" where
  "no_collide_check rpm_metas image_metas = no_collide_loop (rpm_metas @ image_metas) Map.empty"

text \<open>The reading of the spec that every offender is reported: the keys that occur more
  than once among the metadata.\<close>

definition spec_duplicate_keys :: "meta list \<Rightarrow> string list" where
  "spec_duplicate_keys ms =
     (let ks = map collide_key ms in filter (\<lambda>k. count_list ks k > 1) (remdups ks))"

section \<open>Build order\<close>
















section \<open>Pooled sessions\<close>

text \<open>
  Session objects live in a store from addresses to objects; \<open>next_session\<close> is the
  address that the next \<open>build_retrying_koji_client()\<close> returns. The dictionaries
  \<open>session_pool\<close> and \<open>session_pool_available\<close> map a session id to the address of its
  object, in insertion order.
\<close>

record session =
  force_instance_caching :: bool

record pool_state =
  store :: "nat \<Rightarrow> session"
  next_session :: nat
  session_pool :: "(nat \<times> nat) list"
  session_pool_available :: "(nat \<times> nat) list"

datatype lease = Leased nat nat | Wait

text \<open>
  One pass through the body of \<open>while True\<close>, which runs under \<open>self.mutex\<close>: either a
  lease of a session id and its object, or nothing, in which case the caller sleeps. The
  first argument is the object that \<open>build_retrying_koji_client()\<close> constructs.
\<close>

definition lease_attempt :: "session \<Rightarrow> pool_state \<Rightarrow> lease \<times> pool_state" where
  "lease_attempt fresh st =
     (if length (session_pool_available st) = 0 then
        (if length (session_pool st) < 30 then
           (let new_session = next_session st;
                session_id = length (session_pool st)
            in (Leased session_id new_session,
                st\<lparr>store := (store st)(new_session := fresh),
                   next_session := Suc new_session,
                   session_pool := AList.update session_id new_session (session_pool st)\<rparr>))
         else (Wait, st))
      else
        (case last (session_pool_available st) of
           (session_id, s) \<Rightarrow>
             (Leased session_id s,
              st\<lparr>session_pool_available := butlast (session_pool_available st)\<rparr>)))"

text \<open>
  The \<open>while True\<close> loop. It may run forever, so it takes the number of passes allowed.
  \<open>env\<close> is what the other threads do to the state while the caller sleeps; the third
  component of the result is the list of the sleeps made, in time units.
\<close>

fun acquire :: "nat \<Rightarrow> session \<Rightarrow> (pool_state \<Rightarrow> pool_state) \<Rightarrow> pool_state \<Rightarrow> nat list \<Rightarrow>
    ((nat \<times> nat) \<times> pool_state \<times> nat list) option" where
  "acquire 0 fresh env st sleeps = None"
| "acquire (Suc n) fresh env st sleeps =
     (case lease_attempt fresh st of
        (Leased session_id s, st') \<Rightarrow> Some ((session_id, s), st', sleeps)
      | (Wait, st') \<Rightarrow> acquire n fresh env (env st') (sleeps @ [5]))"

definition set_caching :: "nat \<Rightarrow> bool \<Rightarrow> pool_state \<Rightarrow> pool_state" where
  "set_caching s v st = st\<lparr>store := (store st)(s := (store st s)\<lparr>force_instance_caching := v\<rparr>)\<rparr>"

text \<open>The second statement of the \<open>finally\<close> block, under \<open>self.mutex\<close>.\<close>

definition put_back :: "nat \<Rightarrow> nat \<Rightarrow> pool_state \<Rightarrow> pool_state" where
  "put_back session_id s st =
     st\<lparr>session_pool_available := AList.update session_id s (session_pool_available st)\<rparr>"

text \<open>
  The whole context manager around a body. The body receives the session and the state
  and ends normally (\<open>Inr\<close>) or with an exception (\<open>Inl\<close>); the \<open>finally\<close> block runs in
  both cases.
\<close>

definition pooled_koji_client_session ::
  "nat \<Rightarrow> session \<Rightarrow> (pool_state \<Rightarrow> pool_state) \<Rightarrow> bool \<Rightarrow>
   (nat \<Rightarrow> pool_state \<Rightarrow> ('e + 'a) \<times> pool_state) \<Rightarrow> pool_state \<Rightarrow>
   (('e + 'a) \<times> pool_state \<times> nat list) option" where
  "pooled_koji_client_session n fresh env caching body st =
     (case acquire n fresh env st [] of
        None \<Rightarrow> None
      | Some ((session_id, s), st1, sleeps) \<Rightarrow>
          (case body s (set_caching s caching st1) of
             (outcome, st2) \<Rightarrow>
               Some (outcome, put_back session_id s (set_caching s False st2), sleeps)))"

text \<open>
  The states that any number of threads running the context manager can reach from the
  state set up by \<open>__init__\<close>: every step is one of its atomic blocks or assignments.
\<close>

definition initial_pool :: "(nat \<Rightarrow> session) \<Rightarrow> pool_state" where
  "initial_pool h = \<lparr>store = h, next_session = 0, session_pool = [], session_pool_available = []\<rparr>"

inductive reachable :: "pool_state \<Rightarrow> bool" where
  start: "reachable (initial_pool h)"
| attempt: "reachable st \<Longrightarrow> reachable (snd (lease_attempt fresh st))"
| flag: "reachable st \<Longrightarrow> reachable (set_caching s v st)"
| release: "reachable st \<Longrightarrow> reachable (put_back session_id s st)"

section \<open>Named semaphores\<close>

text \<open>
  \<open>str(pathlib.Path(s).absolute())\<close> on a POSIX system with working directory \<open>cwd\<close>:
  empty and \<open>.\<close> components and trailing slashes are dropped, exactly two leading
  slashes are kept, and a relative path is appended to the working directory.
\<close>

definition path_parts :: "string \<Rightarrow> string list" where
  "path_parts s = filter (\<lambda>p. p \<noteq> [] \<and> p \<noteq> ''.'') (split_on CHR ''/'' s)"

definition path_root :: "string \<Rightarrow> string" where
  "path_root s =
     (let n = length (takeWhile (\<lambda>c. c = CHR ''/'') s)
      in if n = 0 then [] else if n = 2 then ''//'' else ''/'')"

fun join_slash :: "string list \<Rightarrow> string" where
  "join_slash [] = []"
| "join_slash [p] = p"
| "join_slash (p # q # ps) = p @ ''/'' @ join_slash (q # ps)"

definition path_absolute :: "string \<Rightarrow> string \<Rightarrow> string" where
  "path_absolute cwd s =
     (if path_root s \<noteq> [] then path_root s @ join_slash (path_parts s)
      else path_root cwd @ join_slash (path_parts cwd @ path_parts s))"

text \<open>
  Semaphore objects are named by their address in \<open>counts\<close>, which holds the count each
  was created with; address 0 is the lock that \<open>__init__\<close> stores under the empty key.
\<close>

record sem_state =
  named_semaphores :: "(string \<times> nat) list"
  counts :: "nat list"

definition initial_sems :: sem_state where
  "initial_sems = \<lparr>named_semaphores = [([], 0)], counts = [1]\<rparr>"

definition semaphore_key :: "string \<Rightarrow> string \<Rightarrow> bool \<Rightarrow> string" where
  "semaphore_key cwd lock_name is_dir =
     (if is_dir then ''_dir::'' @ path_absolute cwd lock_name else lock_name)"

definition get_named_semaphore ::
  "string \<Rightarrow> sem_state \<Rightarrow> string \<Rightarrow> bool \<Rightarrow> nat \<Rightarrow> nat \<times> sem_state" where
  "get_named_semaphore cwd st lock_name is_dir count =
     (let p = semaphore_key cwd lock_name is_dir in
      case map_of (named_semaphores st) p of
        Some sem \<Rightarrow> (sem, st)
      | None \<Rightarrow>
          (let new_semaphore = length (counts st)
           in (new_semaphore,
               st\<lparr>named_semaphores := AList.update p new_semaphore (named_semaphores st),
                  counts := counts st @ [count]\<rparr>)))"

text \<open>One state follows another after any number of calls of \<open>get_named_semaphore\<close>.\<close>

inductive later :: "sem_state \<Rightarrow> sem_state \<Rightarrow> bool" where
  same: "later st st"
| call: "later st st1 \<Longrightarrow> later st (snd (get_named_semaphore cwd st1 lock_name is_dir count))"

section \<open>Concrete remotes and inputs\<close>

text \<open>A remote on which \<open>git ls-remote --heads\<close> succeeds and prints nothing: no branch
  exists.\<close>

definition remote_without_branches :: remote where
  "remote_without_branches u b = Some []"

text \<open>A remote whose only branch is \<open>main\<close>.\<close>

definition remote_with_main :: remote where
  "remote_with_main u b =
     (if b = ''main'' then Some ''7e66b10fbcd6bb49 refs/heads/main'' else Some [])"

definition details :: "string \<Rightarrow> string option \<Rightarrow> string option \<Rightarrow> source_details" where
  "details t f s =
     \<lparr>url = ''https://example.com/repo'', branches = \<lparr>target = t, fallback = f, stage = s\<rparr>\<rparr>"

text \<open>The rule of the example of the spec, and two rules of which the second private
  prefix extends the first.\<close>

definition org_rule :: "string option \<Rightarrow> public_upstream" where
  "org_rule pb = \<lparr>private_prefix = ''git@github.com:org'', public_prefix = ''https://example.com/pub'',
                  public_branch = pb\<rparr>"

definition two_rules :: "public_upstream list" where
  "two_rules =
     [\<lparr>private_prefix = ''https://github.com/org'',
       public_prefix = ''https://github.com/some-public-organization'', public_branch = None\<rparr>,
      \<lparr>private_prefix = ''https://github.com/org/repo'',
       public_prefix = ''https://example.com/pub'', public_branch = None\<rparr>]"

text \<open>Metadata, image entries and images with two independent offenders each: two
  duplicated distgit keys, two name collisions, two parent cycles.\<close>

definition meta_of :: "string \<Rightarrow> string \<Rightarrow> meta" where
  "meta_of n f = \<lparr>meta_namespace = ''containers'', meta_name = n, meta_branch = ''rhaos-4.14'',
                  config_filename = f\<rparr>"

definition four_metas :: "meta list" where
  "four_metas = [meta_of ''a'' ''a.yml'', meta_of ''a'' ''a-copy.yml'',
                 meta_of ''c'' ''c.yml'', meta_of ''c'' ''c-copy.yml'']"

definition four_entries :: "image_entry list" where
  "four_entries =
     [\<lparr>entry_key = ''a'', entry_name = ''openshift/ose-a'', entry_name_in_bundle = None\<rparr>,
      \<lparr>entry_key = ''a2'', entry_name = ''openshift/a'', entry_name_in_bundle = None\<rparr>,
      \<lparr>entry_key = ''c'', entry_name = ''openshift/c'', entry_name_in_bundle = Some ''shared''\<rparr>,
      \<lparr>entry_key = ''c2'', entry_name = ''openshift/c2'', entry_name_in_bundle = Some ''shared''\<rparr>]"

definition no_names :: name_maps where
  "no_names = \<lparr>image_name_map = Map.empty, name_in_bundle_map = Map.empty\<rparr>"

definition four_images :: "image list" where
  "four_images =
     [\<lparr>distgit_key = ''x'', parent = Some ''y'', children = [''y'']\<rparr>,
      \<lparr>distgit_key = ''y'', parent = Some ''x'', children = [''x'']\<rparr>,
      \<lparr>distgit_key = ''p'', parent = Some ''q'', children = [''q'']\<rparr>,
      \<lparr>distgit_key = ''q'', parent = Some ''p'', children = [''p'']\<rparr>]"

text \<open>Pool states before any lease and at capacity with every session leased, other
  threads that do nothing during a sleep, and a body that raises.\<close>

definition plain_session :: session where
  "plain_session = \<lparr>force_instance_caching = False\<rparr>"

definition empty_pool :: pool_state where
  "empty_pool = initial_pool (\<lambda>a. plain_session)"

definition full_pool :: pool_state where
  "full_pool = \<lparr>store = (\<lambda>a. plain_session), next_session = 30,
                 session_pool = map (\<lambda>i. (i, i)) [0..<30], session_pool_available = []\<rparr>"

definition quiet :: "pool_state \<Rightarrow> pool_state" where
  "quiet st = st"

definition failing_body :: "nat \<Rightarrow> pool_state \<Rightarrow> (string + unit) \<times> pool_state" where
  "failing_body s st = (Inl ''koji call failed'', st)"



section \<open>Properties of assembly name validation\<close>

lemma fullmatch_4_14: "fullmatch_word_dot ''4.14''"
  by (simp add: fullmatch_word_dot_def py_word_char_def)

lemma fullmatch_my_release: "fullmatch_word_dot ''my_release''"
  by (simp add: fullmatch_word_dot_def py_word_char_def)

lemma no_fullmatch_foo_bar: "\<not> fullmatch_word_dot ''foo/bar''"
  by (simp add: fullmatch_word_dot_def py_word_char_def)

lemma fullmatch_v1_2_rc: "fullmatch_word_dot ''v1.2_rc''"
  by (simp add: fullmatch_word_dot_def py_word_char_def)

text \<open>
  Claim C8. With assembly mode enabled, by the group configuration or by the command line,
  \<open>initialize\<close> accepts the names \<open>4.14\<close> and \<open>my_release\<close> and raises the validation
  error for \<open>.foo\<close>, \<open>foo.\<close> and \<open>foo/bar\<close>; in general a name is accepted exactly
  when it consists of word characters and dots only, is not empty, and neither starts nor
  ends with a dot.
\<close>

theorem assembly_name_validation:
  assumes "assemblies_enabled \<or> enable_assemblies"
  shows "initialize_assembly assemblies_enabled enable_assemblies ''4.14'' = Inr (Some ''4.14'')
       \<and> initialize_assembly assemblies_enabled enable_assemblies ''my_release'' = Inr (Some ''my_release'')
       \<and> initialize_assembly assemblies_enabled enable_assemblies ''.foo'' = Inl ValueError_assembly_name
       \<and> initialize_assembly assemblies_enabled enable_assemblies ''foo.'' = Inl ValueError_assembly_name
       \<and> initialize_assembly assemblies_enabled enable_assemblies ''foo/bar'' = Inl ValueError_assembly_name
       \<and> initialize_assembly assemblies_enabled enable_assemblies a =
           (if fullmatch_word_dot a \<and> hd a \<noteq> CHR ''.'' \<and> last a \<noteq> CHR ''.''
            then Inr (Some a) else Inl ValueError_assembly_name)"
  using assms
  by (simp add: initialize_assembly_def fullmatch_4_14 fullmatch_my_release no_fullmatch_foo_bar)

theorem assembly_name_validation_witness:
  "(True \<or> False)
   \<and> initialize_assembly True False ''4.14'' = Inr (Some ''4.14'')
   \<and> initialize_assembly True False ''foo/bar'' = Inl ValueError_assembly_name
   \<and> initialize_assembly True False ''v1.2_rc'' = Inr (Some ''v1.2_rc'')"
  using assembly_name_validation [of True False "''v1.2_rc''"]
  by (simp add: fullmatch_v1_2_rc)

section \<open>Properties of branch detection\<close>

lemma dropWhile_hd: "xs \<noteq> [] \<Longrightarrow> \<not> P (hd xs) \<Longrightarrow> dropWhile P xs = xs"
  by (cases xs) auto

lemma strip_by_id: "s \<noteq> [] \<Longrightarrow> \<not> sp (hd s) \<Longrightarrow> \<not> sp (last s) \<Longrightarrow> strip_by sp s = s"
  unfolding strip_by_def
  by (simp add: dropWhile_hd hd_rev)

lemma hex_not_space: "hex_digit c \<Longrightarrow> \<not> int_space c"
  by (auto simp: hex_digit_def int_space_def Let_def)

lemma hex_not_special:
  "hex_digit c \<Longrightarrow> c \<noteq> CHR ''+'' \<and> c \<noteq> CHR ''-'' \<and> c \<noteq> CHR ''_'' \<and> c \<noteq> CHR ''x'' \<and> c \<noteq> CHR ''X''"
  by (auto simp: hex_digit_def Let_def)

lemma digits_tail_hex: "list_all hex_digit s \<Longrightarrow> digits_tail s"
  by (induction s rule: digits_tail.induct) (auto dest: hex_not_special split: list.splits)

lemma hex_parses:
  assumes "list_all hex_digit s" "s \<noteq> []"
  shows "int_base16_parses s"
proof -
  from assms obtain c cs where s: "s = c # cs" by (cases s) auto
  have h: "hex_digit (hd s)" "hex_digit (last s)" using assms by (auto simp: list_all_iff s)
  have 1: "strip_by int_space s = s" using strip_by_id[OF assms(2)] h hex_not_space by blast
  have "c \<noteq> CHR ''+''" "c \<noteq> CHR ''-''" using h(1) hex_not_special[of c] by (simp_all add: s)
  then have 2: "strip_sign s = s" by (simp add: strip_sign_def s)
  have 3: "strip_0x s = s"
  proof (cases cs)
    case Nil
    then show ?thesis by (simp add: strip_0x_def s)
  next
    case (Cons d ds)
    then have "hex_digit d" using assms(1) by (simp add: s)
    then have "d \<noteq> CHR ''x''" "d \<noteq> CHR ''X''" using hex_not_special by blast+
    then show ?thesis by (simp add: strip_0x_def s Cons)
  qed
  have 4: "digit_run s" using assms(1) by (simp add: digit_run_def s digits_tail_hex)
  show ?thesis by (simp add: int_base16_parses_def 1 2 3 4)
qed

lemma hex_is_commit_hash: "list_all hex_digit s \<Longrightarrow> length s \<ge> 7 \<Longrightarrow> is_branch_commit_hash s"
  using hex_parses[of s] by (cases s) (auto simp: is_branch_commit_hash_def)

lemma detect_commit_hash:
  assumes "\<not> (stage_flag \<and> truthy (stage (branches sd)))"
      and "is_branch_commit_hash (effective_branch use sd)"
  shows "detect_remote_source_branch use stage_flag ls_remote sd =
           (Inr (effective_branch use sd, effective_branch use sd), [])"
  using assms by (auto simp: detect_remote_source_branch_def effective_branch_def Let_def)

lemmas parse_defs = is_branch_commit_hash_def int_base16_parses_def strip_by_def int_space_def
  strip_sign_def strip_0x_def digit_run_def hex_digit_def

lemma plus_sign: "is_branch_commit_hash ''+1234567'' \<and> \<not> list_all hex_digit ''+1234567''"
  by (simp add: parse_defs)
lemma minus_sign: "is_branch_commit_hash ''-1234567'' \<and> \<not> list_all hex_digit ''-1234567''"
  by (simp add: parse_defs)
lemma prefix_0x: "is_branch_commit_hash ''0x12345'' \<and> \<not> list_all hex_digit ''0x12345''"
  by (simp add: parse_defs)
lemma prefix_0X: "is_branch_commit_hash ''0X12345'' \<and> \<not> list_all hex_digit ''0X12345''"
  by (simp add: parse_defs)
lemma underscores: "is_branch_commit_hash ''1_234_567'' \<and> \<not> list_all hex_digit ''1_234_567''"
  by (simp add: parse_defs)
lemma spaces: "is_branch_commit_hash '' 1234567 '' \<and> \<not> list_all hex_digit '' 1234567 ''"
  by (simp add: parse_defs)

text \<open>
  Claim C10. \<open>is_branch_commit_hash\<close> answers True for names of length at least 7
  that are not made of hex digits only: with a leading sign, with a \<open>0x\<close> or \<open>0X\<close>
  prefix, with underscores between digits, with whitespace around. Whenever it answers True
  for the branch under detection and no stage override is active,
  \<open>detect_remote_source_branch\<close> returns that name as branch and as ref, and makes no
  remote lookup.
\<close>

theorem commit_hash_accepts_non_hex:
  "(is_branch_commit_hash ''+1234567'' \<and> \<not> list_all hex_digit ''+1234567'')
 \<and> (is_branch_commit_hash ''-1234567'' \<and> \<not> list_all hex_digit ''-1234567'')
 \<and> (is_branch_commit_hash ''0x12345'' \<and> \<not> list_all hex_digit ''0x12345'')
 \<and> (is_branch_commit_hash ''0X12345'' \<and> \<not> list_all hex_digit ''0X12345'')
 \<and> (is_branch_commit_hash ''1_234_567'' \<and> \<not> list_all hex_digit ''1_234_567'')
 \<and> (is_branch_commit_hash '' 1234567 '' \<and> \<not> list_all hex_digit '' 1234567 '')
 \<and> (\<forall>use stage_flag ls_remote sd.
       is_branch_commit_hash (effective_branch use sd)
       \<and> \<not> (stage_flag \<and> truthy (stage (branches sd)))
       \<longrightarrow> detect_remote_source_branch use stage_flag ls_remote sd =
             (Inr (effective_branch use sd, effective_branch use sd), []))"
  using plus_sign minus_sign prefix_0x prefix_0X underscores spaces detect_commit_hash
  by blast

theorem commit_hash_accepts_non_hex_witness:
  "is_branch_commit_hash ''0x12345''
   \<and> detect_remote_source_branch None False remote_without_branches (details ''0x12345'' None None)
       = (Inr (''0x12345'', ''0x12345''), [])"
proof -
  have e: "effective_branch None (details ''0x12345'' None None) = ''0x12345''"
    by (simp add: effective_branch_def details_def)
  have s: "\<not> (False \<and> truthy (stage (branches (details ''0x12345'' None None))))" by simp
  from commit_hash_accepts_non_hex
  have "is_branch_commit_hash ''0x12345''"
   and "\<forall>use stage_flag ls_remote sd.
       is_branch_commit_hash (effective_branch use sd)
       \<and> \<not> (stage_flag \<and> truthy (stage (branches sd)))
       \<longrightarrow> detect_remote_source_branch use stage_flag ls_remote sd =
             (Inr (effective_branch use sd, effective_branch use sd), [])" by blast+
  then show ?thesis using e s by metis
qed

text \<open>
  Claim C4 as stated fails: with the fallback mode \<open>always\<close> and a fallback branch
  configured, a target made of seven hex digits is replaced by the fallback, which is
  looked up on the remote and returned.
\<close>

theorem hex_target_counterexample:
  "list_all hex_digit ''abcdef0'' \<and> length ''abcdef0'' \<ge> 7
   \<and> detect_remote_source_branch (Some ''always'') False remote_with_main
        (details ''abcdef0'' (Some ''main'') None)
      = (Inr (''main'', ''7e66b10fbcd6bb49''), [(''https://example.com/repo'', ''main'')])"
  by (simp add: detect_remote_source_branch_def details_def remote_with_main_def Let_def
        get_remote_branch_ref_def is_branch_commit_hash_def strip_by_def str_space_def hex_digit_def)

text \<open>
  Claim C4, amended. A target branch of at least 7 hex digits is returned as branch and as
  ref without any remote lookup, when no stage override is active and the fallback mode is
  not \<open>always\<close> with a fallback branch configured.
\<close>

theorem hex_target_no_lookup:
  assumes "list_all hex_digit (target (branches sd))"
      and "length (target (branches sd)) \<ge> 7"
      and "\<not> (stage_flag \<and> truthy (stage (branches sd)))"
      and "\<not> (use = Some ''always'' \<and> truthy (fallback (branches sd)))"
  shows "detect_remote_source_branch use stage_flag ls_remote sd =
           (Inr (target (branches sd), target (branches sd)), [])"
proof -
  have e: "effective_branch use sd = target (branches sd)"
    using assms(4) by (auto simp: effective_branch_def)
  show ?thesis
    using detect_commit_hash[of stage_flag sd use ls_remote] hex_is_commit_hash[OF assms(1,2)] assms(3)
    by (simp add: e)
qed

theorem hex_target_no_lookup_witness:
  "list_all hex_digit ''abcdef0'' \<and> length ''abcdef0'' \<ge> 7
   \<and> detect_remote_source_branch None False remote_with_main (details ''abcdef0'' (Some ''main'') None)
      = (Inr (''abcdef0'', ''abcdef0''), [])"
proof -
  have h: "list_all hex_digit (target (branches (details ''abcdef0'' (Some ''main'') None)))"
    by (simp add: details_def hex_digit_def)
  have l: "length (target (branches (details ''abcdef0'' (Some ''main'') None))) \<ge> 7"
    by (simp add: details_def)
  show ?thesis
    using hex_target_no_lookup[OF h l, of False None remote_with_main] h
    by (simp add: details_def)
qed

text \<open>
  Claim C5 as stated fails: when neither the target nor the fallback exists on the remote,
  the error carries one branch name, and the fallback \<open>main\<close> is not named in it.
\<close>

theorem missing_fallback_counterexample:
  "get_remote_branch_ref remote_without_branches ''https://example.com/repo'' ''release-4.14'' = None
   \<and> get_remote_branch_ref remote_without_branches ''https://example.com/repo'' ''main'' = None
   \<and> detect_remote_source_branch None False remote_without_branches
        (details ''release-4.14'' (Some ''main'') None)
      = (Inl (DoozerFatalError_no_fallback_branch ''release-4.14''),
         [(''https://example.com/repo'', ''release-4.14''), (''https://example.com/repo'', ''main'')])
   \<and> ''main'' \<notin> set (named_in (DoozerFatalError_no_fallback_branch ''release-4.14''))"
  by (simp add: detect_remote_source_branch_def details_def remote_without_branches_def Let_def
        get_remote_branch_ref_def parse_defs)

text \<open>
  Claim C5, amended. When the target branch is not found on the remote and the configured
  fallback branch, in a fallback mode other than \<open>always\<close> and \<open>never\<close>, is not found
  either, \<open>detect_remote_source_branch\<close> raises the fatal error "Requested fallback
  branch ... does not exist", which carries a single branch name, after looking up the
  target and then the fallback.
\<close>

theorem missing_fallback_error:
  assumes "\<not> (stage_flag \<and> truthy (stage (branches sd)))"
      and "use \<noteq> Some ''always''" and "use \<noteq> Some ''never''"
      and "fallback (branches sd) = Some fb" and "fb \<noteq> []"
      and "\<not> is_branch_commit_hash (target (branches sd))"
      and "\<not> truthy (get_remote_branch_ref ls_remote (url sd) (target (branches sd)))"
      and "\<not> truthy (get_remote_branch_ref ls_remote (url sd) fb)"
  shows "\<exists>named. detect_remote_source_branch use stage_flag ls_remote sd =
           (Inl (DoozerFatalError_no_fallback_branch named),
            [(url sd, target (branches sd)), (url sd, fb)])"
  using assms by (auto simp: detect_remote_source_branch_def Let_def)

theorem missing_fallback_error_witness:
  "\<exists>named. detect_remote_source_branch None False remote_without_branches
        (details ''release-4.14'' (Some ''main'') None)
      = (Inl (DoozerFatalError_no_fallback_branch named),
         [(''https://example.com/repo'', ''release-4.14''), (''https://example.com/repo'', ''main'')])"
proof -
  let ?sd = "details ''release-4.14'' (Some ''main'') None"
  have 1: "\<not> (False \<and> truthy (stage (branches ?sd)))" by simp
  have 2: "(None :: string option) \<noteq> Some ''always''" "(None :: string option) \<noteq> Some ''never''" by simp_all
  have 3: "fallback (branches ?sd) = Some ''main''" "''main'' \<noteq> []" by (simp_all add: details_def)
  have 4: "\<not> is_branch_commit_hash (target (branches ?sd))"
    by (simp add: details_def is_branch_commit_hash_def int_base16_parses_def strip_by_def
          int_space_def strip_sign_def strip_0x_def digit_run_def hex_digit_def)
  have 5: "\<not> truthy (get_remote_branch_ref remote_without_branches (url ?sd) (target (branches ?sd)))"
    using 4 by (simp add: get_remote_branch_ref_def remote_without_branches_def strip_by_def)
  have 6: "\<not> truthy (get_remote_branch_ref remote_without_branches (url ?sd) ''main'')"
    by (simp add: get_remote_branch_ref_def remote_without_branches_def strip_by_def
          is_branch_commit_hash_def)
  show ?thesis
    using missing_fallback_error[OF 1 2 3 4 5 6] by (simp add: details_def)
qed

section \<open>Properties of the public upstream translation\<close>

lemma https_form_priv: "https_form ''git@github.com:org/priv.git'' = ''https://github.com/org/priv''"
  by code_simp
lemma https_form_org: "https_form ''git@github.com:org'' = ''https://github.com/org''"
  by code_simp
lemma https_form_pub: "https_form ''https://example.com/pub'' = ''https://example.com/pub''"
  by code_simp

text \<open>
  Claim C7. With the single rule from \<open>git@github.com:org\<close> to
  \<open>https://example.com/pub\<close>, \<open>get_public_upstream\<close> maps
  \<open>git@github.com:org/priv.git\<close> to \<open>https://example.com/pub/priv\<close>, with the public
  branch of the rule, for every normalizer that puts the three URLs in https form as shown.
\<close>

theorem public_upstream_example:
  assumes "conv ''git@github.com:org/priv.git'' = ''https://github.com/org/priv''"
      and "conv ''git@github.com:org'' = ''https://github.com/org''"
      and "conv ''https://example.com/pub'' = ''https://example.com/pub''"
  shows "get_public_upstream conv [org_rule pb] ''git@github.com:org/priv.git''
           = (''https://example.com/pub/priv'', pb)"
  using assms by (simp add: get_public_upstream_def org_rule_def startswith_def)

theorem public_upstream_example_witness:
  "https_form ''git@github.com:org/priv.git'' = ''https://github.com/org/priv''
   \<and> https_form ''git@github.com:org'' = ''https://github.com/org''
   \<and> https_form ''https://example.com/pub'' = ''https://example.com/pub''
   \<and> get_public_upstream https_form [org_rule None] ''git@github.com:org/priv.git''
           = (''https://example.com/pub/priv'', None)"
  using public_upstream_example [OF https_form_priv https_form_org https_form_pub, of None]
    https_form_priv https_form_org https_form_pub by simp

lemma https_form_other_spellings:
  "https_form ''http://github.com/org/repo.git/'' = ''https://github.com/org/repo''
   \<and> https_form ''ssh://git@github.com/org/repo'' = ''https://github.com/org/repo''
   \<and> https_form '' git://github.com/org/repo '' = ''https://github.com/org/repo''"
  by code_simp

lemma https_form_org_https: "https_form ''https://github.com/org'' = ''https://github.com/org''"
  by code_simp
lemma https_form_repo: "https_form ''https://github.com/org/repo'' = ''https://github.com/org/repo''"
  by code_simp
lemma https_form_public_org: "https_form ''https://github.com/some-public-organization'' = ''https://github.com/some-public-organization''"
  by code_simp

text \<open>
  Claim C1 fails on the code. Both rules match \<open>https://github.com/org/repo\<close> and the
  second private prefix extends the first, yet the substitution is made with the first
  rule: the loop compares the length of the new private prefix with the length of the
  contender's public prefix. Alone, the second rule gives \<open>https://example.com/pub\<close>.
\<close>

theorem longest_private_prefix_loses:
  "startswith ''https://github.com/org/repo'' (''https://github.com/org'' @ ''/'')
   \<and> get_public_upstream https_form two_rules ''https://github.com/org/repo''
     = (''https://github.com/some-public-organization/repo'', None)
   \<and> get_public_upstream https_form [two_rules ! 1] ''https://github.com/org/repo''
     = (''https://example.com/pub'', None)"
  by (simp add: get_public_upstream_def two_rules_def startswith_def https_form_org_https
        https_form_repo https_form_public_org https_form_pub)

section \<open>Properties of the named semaphores\<close>

lemma key_tmp_x_slash: "semaphore_key cwd ''/tmp/x/'' True = ''_dir::/tmp/x''"
  by (simp add: semaphore_key_def path_absolute_def path_root_def path_parts_def)

lemma key_tmp_x: "semaphore_key cwd ''/tmp/x'' True = ''_dir::/tmp/x''"
  by (simp add: semaphore_key_def path_absolute_def path_root_def path_parts_def)

lemma get_registers:
  "map_of (named_semaphores (snd (get_named_semaphore cwd st n d c))) (semaphore_key cwd n d)
     = Some (fst (get_named_semaphore cwd st n d c))"
  by (simp add: get_named_semaphore_def Let_def update_conv' split: option.splits)

lemma get_keeps:
  "map_of (named_semaphores st) p = Some s \<Longrightarrow>
   map_of (named_semaphores (snd (get_named_semaphore cwd st n d c))) p = Some s"
  by (auto simp: get_named_semaphore_def Let_def update_conv' split: option.splits)

lemma later_keeps:
  "later st st2 \<Longrightarrow> map_of (named_semaphores st) p = Some s \<Longrightarrow>
   map_of (named_semaphores st2) p = Some s"
  by (induction rule: later.induct) (auto intro: get_keeps)

lemma get_hit:
  "map_of (named_semaphores st) (semaphore_key cwd n d) = Some s \<Longrightarrow>
   fst (get_named_semaphore cwd st n d c) = s"
  by (simp add: get_named_semaphore_def Let_def)

lemma get_miss:
  "map_of (named_semaphores st) (semaphore_key cwd n d) = None \<Longrightarrow>
   fst (get_named_semaphore cwd st n d c) = length (counts st)
   \<and> counts (snd (get_named_semaphore cwd st n d c)) ! length (counts st) = c"
  by (simp add: get_named_semaphore_def Let_def)

text \<open>
  Claim C9. A call of \<open>get_named_semaphore\<close> that follows a first call, after any number
  of other calls, and has the same key after normalization, returns the semaphore that the
  first call returned; that one is newly created with the given count when the key was
  absent. In directory mode \<open>/tmp/x/\<close> and \<open>/tmp/x\<close> have the same key, whatever the
  working directory, and so give the identical semaphore.
\<close>

theorem named_semaphore_identity:
  assumes "later (snd (get_named_semaphore cwd st lock_name is_dir count)) st2"
      and "semaphore_key cwd2 lock_name2 is_dir2 = semaphore_key cwd lock_name is_dir"
  shows "fst (get_named_semaphore cwd2 st2 lock_name2 is_dir2 count2)
           = fst (get_named_semaphore cwd st lock_name is_dir count)
       \<and> semaphore_key cwd ''/tmp/x/'' True = semaphore_key cwd2 ''/tmp/x'' True
       \<and> (lock_name = ''/tmp/x/'' \<and> is_dir \<longrightarrow>
            fst (get_named_semaphore cwd2 st2 ''/tmp/x'' True count2)
              = fst (get_named_semaphore cwd st lock_name is_dir count))
       \<and> (map_of (named_semaphores st) (semaphore_key cwd lock_name is_dir) = None \<longrightarrow>
            fst (get_named_semaphore cwd st lock_name is_dir count) = length (counts st)
            \<and> counts (snd (get_named_semaphore cwd st lock_name is_dir count)) ! length (counts st)
                = count)"
proof -
  let ?first = "get_named_semaphore cwd st lock_name is_dir count"
  have reg: "map_of (named_semaphores (snd ?first)) (semaphore_key cwd lock_name is_dir) = Some (fst ?first)"
    by (rule get_registers)
  have kept: "map_of (named_semaphores st2) (semaphore_key cwd lock_name is_dir) = Some (fst ?first)"
    using later_keeps[OF assms(1) reg] .
  have a: "fst (get_named_semaphore cwd2 st2 lock_name2 is_dir2 count2) = fst ?first"
    using get_hit[of st2 cwd2 lock_name2 is_dir2] kept assms(2) by simp
  have b: "semaphore_key cwd ''/tmp/x/'' True = semaphore_key cwd2 ''/tmp/x'' True"
    by (simp add: key_tmp_x_slash key_tmp_x)
  have c: "lock_name = ''/tmp/x/'' \<and> is_dir \<longrightarrow>
            fst (get_named_semaphore cwd2 st2 ''/tmp/x'' True count2) = fst ?first"
  proof
    assume h: "lock_name = ''/tmp/x/'' \<and> is_dir"
    then have "semaphore_key cwd2 ''/tmp/x'' True = semaphore_key cwd lock_name is_dir"
      by (simp add: key_tmp_x_slash key_tmp_x)
    then show "fst (get_named_semaphore cwd2 st2 ''/tmp/x'' True count2) = fst ?first"
      using get_hit[of st2 cwd2 "''/tmp/x''" True] kept by simp
  qed
  show ?thesis using a b c get_miss[of st cwd lock_name is_dir count] by blast
qed

lemma first_call: "fst (get_named_semaphore ''/home'' initial_sems ''/tmp/x/'' True (Suc 0)) = Suc 0"
  by (simp add: get_named_semaphore_def initial_sems_def key_tmp_x_slash)

theorem named_semaphore_identity_witness:
  "later (snd (get_named_semaphore ''/home'' initial_sems ''/tmp/x/'' True 1))
         (snd (get_named_semaphore ''/home'' (snd (get_named_semaphore ''/home'' initial_sems ''/tmp/x/'' True 1)) ''other'' False 3))
   \<and> semaphore_key ''/'' ''/tmp/x'' True = semaphore_key ''/home'' ''/tmp/x/'' True
   \<and> fst (get_named_semaphore ''/''
         (snd (get_named_semaphore ''/home'' (snd (get_named_semaphore ''/home'' initial_sems ''/tmp/x/'' True 1)) ''other'' False 3))
          ''/tmp/x'' True 2) = 1"
proof -
  let ?st1 = "snd (get_named_semaphore ''/home'' initial_sems ''/tmp/x/'' True 1)"
  let ?st2 = "snd (get_named_semaphore ''/home'' ?st1 ''other'' False 3)"
  have l: "later ?st1 ?st2" by (rule later.call) (rule later.same)
  have k: "semaphore_key ''/'' ''/tmp/x'' True = semaphore_key ''/home'' ''/tmp/x/'' True"
    by (simp add: key_tmp_x_slash key_tmp_x)
  show ?thesis
    using named_semaphore_identity[OF l k, of 2] l k by (simp add: first_call)
qed

section \<open>Properties of the checks of \<open>initialize\<close>\<close>

lemma cycle_check_children_first:
  "list_all (\<lambda>c'. \<not> anc k c') cs1 \<Longrightarrow> anc k c \<Longrightarrow>
   cycle_check_children anc k (cs1 @ c # cs2) = Inl (DoozerFatalError_cycle c k)"
  by (induction cs1) auto

lemma cycle_check_append:
  "cycle_check anc (xs @ ys) =
     (case cycle_check anc xs of Inl e \<Rightarrow> Inl e | Inr u \<Rightarrow> cycle_check anc ys)"
  by (induction xs) (auto split: sum.splits)

lemma cycle_check_first:
  assumes "cycle_check anc pre = Inr ()"
      and "children i = cs1 @ c # cs2"
      and "list_all (\<lambda>c'. \<not> anc (distgit_key i) c') cs1"
      and "anc (distgit_key i) c"
  shows "cycle_check anc (pre @ i # post) = Inl (DoozerFatalError_cycle c (distgit_key i))"
  using assms cycle_check_children_first[of anc "distgit_key i" cs1 c cs2]
  by (simp add: cycle_check_append)

lemma register_names_append:
  "register_names (xs @ ys) m =
     (case register_names xs m of Inl e \<Rightarrow> Inl e | Inr m' \<Rightarrow> register_names ys m')"
proof (induction xs arbitrary: m)
  case Nil
  show ?case by simp
next
  case (Cons img xs)
  show ?case
    by (simp add: Cons.IH Let_def split: list.splits sum.splits)
qed

lemma register_error_shape:
  assumes "register_name_in_bundle m n k = Inl e"
  shows "\<exists>owner. e = ValueError_name_in_bundle k n owner \<and> name_in_bundle_map m n = Some owner"
  using assms by (auto simp: register_name_in_bundle_def split: option.splits)

lemma register_ok_map:
  assumes "register_name_in_bundle m n k = Inr m2"
  shows "name_in_bundle_map m2 = (name_in_bundle_map m)(n \<mapsto> k)"
  using assms by (auto simp: register_name_in_bundle_def split: option.splits)

lemma ose_differs: "''ose-'' @ s \<noteq> s"
proof
  assume "''ose-'' @ s = s"
  then have "length (''ose-'' @ s) = length s" by simp
  then show False by simp
qed

lemma two_aliases_error:
  assumes "register_name_in_bundle m1 w k = Inr m2"
      and "register_name_in_bundle m2 (''ose-'' @ w) k = Inl e"
  shows "\<exists>owner. e = ValueError_name_in_bundle k (''ose-'' @ w) owner
                 \<and> name_in_bundle_map m1 (''ose-'' @ w) = Some owner"
proof -
  from register_error_shape[OF assms(2)] obtain owner where
    o: "e = ValueError_name_in_bundle k (''ose-'' @ w) owner"
       "name_in_bundle_map m2 (''ose-'' @ w) = Some owner" by blast
  have "name_in_bundle_map m2 (''ose-'' @ w) = name_in_bundle_map m1 (''ose-'' @ w)"
    using register_ok_map[OF assms(1)] ose_differs[of w] by (simp del: append.simps)
  with o show ?thesis by metis
qed

lemma register_names_declared:
  assumes "split_on CHR ''/'' (entry_name img) = p # short_name # rest"
      and "truthy (entry_name_in_bundle img)"
      and "m1 = m\<lparr>image_name_map := (image_name_map m)(entry_name img \<mapsto> entry_key img,
                                                     short_name \<mapsto> entry_key img)\<rparr>"
  shows "register_names [img] m =
           (case register_name_in_bundle m1 (str_of (entry_name_in_bundle img)) (entry_key img) of
              Inl e \<Rightarrow> Inl e | Inr m2 \<Rightarrow> Inr m2)"
  using assms by (simp add: Let_def split: sum.splits)

lemma register_names_undeclared:
  assumes "split_on CHR ''/'' (entry_name img) = p # short_name # rest"
      and "\<not> truthy (entry_name_in_bundle img)"
      and "m1 = m\<lparr>image_name_map := (image_name_map m)(entry_name img \<mapsto> entry_key img,
                                                     short_name \<mapsto> entry_key img)\<rparr>"
      and "w = (if startswith short_name ''ose-'' then drop 4 short_name else short_name)"
  shows "register_names [img] m =
           (case register_name_in_bundle m1 w (entry_key img) of
              Inl e \<Rightarrow> Inl e
            | Inr m2 \<Rightarrow> (case register_name_in_bundle m2 (''ose-'' @ w) (entry_key img) of
                          Inl e \<Rightarrow> Inl e | Inr m3 \<Rightarrow> Inr m3))"
  using assms by (simp add: Let_def split: sum.splits)

lemma register_names_single_error:
  assumes "register_names [img] m = Inl e"
  shows "e = IndexError \<or>
         (\<exists>n owner. e = ValueError_name_in_bundle (entry_key img) n owner
                     \<and> name_in_bundle_map m n = Some owner)"
proof (cases "split_on CHR ''/'' (entry_name img)")
  case Nil
  then show ?thesis using assms by simp
next
  case (Cons p ps)
  show ?thesis
  proof (cases ps)
    case Nil
    then show ?thesis using assms Cons by simp
  next
    case (Cons short_name rest)
    with \<open>split_on CHR ''/'' (entry_name img) = p # ps\<close>
    have sp: "split_on CHR ''/'' (entry_name img) = p # short_name # rest" by simp
    define m1 where "m1 = m\<lparr>image_name_map :=
                       (image_name_map m)(entry_name img \<mapsto> entry_key img,
                                          short_name \<mapsto> entry_key img)\<rparr>"
    have nm: "name_in_bundle_map m1 = name_in_bundle_map m" by (simp add: m1_def)
    show ?thesis
    proof (cases "truthy (entry_name_in_bundle img)")
      case True
      have "register_name_in_bundle m1 (str_of (entry_name_in_bundle img)) (entry_key img) = Inl e"
        using assms register_names_declared[OF sp True m1_def] by (simp split: sum.splits)
      from register_error_shape[OF this] show ?thesis using nm by auto
    next
      case False
      define w where "w = (if startswith short_name ''ose-'' then drop 4 short_name else short_name)"
      note eq = register_names_undeclared[OF sp False m1_def w_def]
      show ?thesis
      proof (cases "register_name_in_bundle m1 w (entry_key img)")
        case (Inl e1)
        then have "e1 = e" using assms eq by simp
        with register_error_shape[OF Inl] show ?thesis using nm by auto
      next
        case (Inr m2)
        then have "register_name_in_bundle m2 (''ose-'' @ w) (entry_key img) = Inl e"
          using assms eq by (simp del: append.simps split: sum.splits)
        from two_aliases_error[OF Inr this] show ?thesis using nm by auto
      qed
    qed
  qed
qed

lemma register_names_first:
  assumes "register_names pre m = Inr m'" and "register_names [img] m' = Inl e"
  shows "register_names (pre @ img # post) m = Inl e"
proof -
  have "register_names (pre @ [img] @ post) m = Inl e"
    using assms by (simp only: register_names_append sum.case)
  then show ?thesis by simp
qed

lemma no_collide_loop_append:
  "no_collide_loop (xs @ ys) seen =
     (case no_collide_loop xs seen of Inl e \<Rightarrow> Inl e | Inr seen' \<Rightarrow> no_collide_loop ys seen')"
  by (induction xs arbitrary: seen) (auto split: option.splits)

lemma no_collide_first:
  assumes "rpm_metas @ image_metas = pre @ mt # post"
      and "no_collide_loop pre Map.empty = Inr seen"
      and "seen (collide_key mt) = Some other"
  shows "no_collide_check rpm_metas image_metas =
           Inl (IOError_duplicate_distgit (collide_key mt) (config_filename mt) (config_filename other))"
  using assms by (simp add: no_collide_check_def no_collide_loop_append)

lemma collide_key_meta_of: "collide_key (meta_of n f) = ''containers/'' @ n @ ''/#rhaos-4.14''"
  by (simp add: collide_key_def meta_of_def)

lemma dup_metas:
  "no_collide_check [] four_metas =
     Inl (IOError_duplicate_distgit ''containers/a/#rhaos-4.14'' ''a-copy.yml'' ''a.yml'')"
  by (simp add: no_collide_check_def four_metas_def collide_key_meta_of) (simp add: meta_of_def)

lemma dup_metas_2:
  "no_collide_check [] (drop 2 four_metas) =
     Inl (IOError_duplicate_distgit ''containers/c/#rhaos-4.14'' ''c-copy.yml'' ''c.yml'')"
  by (simp add: no_collide_check_def four_metas_def collide_key_meta_of) (simp add: meta_of_def)

lemma dup_keys: "spec_duplicate_keys four_metas = [''containers/a/#rhaos-4.14'', ''containers/c/#rhaos-4.14'']"
  by (simp add: spec_duplicate_keys_def four_metas_def collide_key_meta_of)

lemma split_ose_a: "split_on CHR ''/'' ''openshift/ose-a'' = [''openshift'', ''ose-a'']" by simp
lemma split_a: "split_on CHR ''/'' ''openshift/a'' = [''openshift'', ''a'']" by simp
lemma split_c: "split_on CHR ''/'' ''openshift/c'' = [''openshift'', ''c'']" by simp
lemma split_c2: "split_on CHR ''/'' ''openshift/c2'' = [''openshift'', ''c2'']" by simp

lemma dup_names:
  "register_names four_entries no_names = Inl (ValueError_name_in_bundle ''a2'' ''a'' ''a'')"
  by (simp add: four_entries_def no_names_def split_ose_a split_a register_name_in_bundle_def
        startswith_def Let_def del: split_on.simps)

lemma dup_names_2:
  "register_names (drop 2 four_entries) no_names = Inl (ValueError_name_in_bundle ''c2'' ''shared'' ''c'')"
  by (simp add: four_entries_def no_names_def split_c split_c2 register_name_in_bundle_def
        startswith_def Let_def del: split_on.simps)

lemma anc_x_y: "is_ancestor four_images 4 ''x'' ''y''"
  by (simp add: four_images_def numeral_eq_Suc)

lemma anc_p_q: "is_ancestor four_images 4 ''p'' ''q''"
  by (simp add: four_images_def numeral_eq_Suc)

lemma cycles:
  "cycle_check (is_ancestor four_images 4) four_images = Inl (DoozerFatalError_cycle ''y'' ''x'')"
  using anc_x_y by (simp add: four_images_def)

lemma cycles_2:
  "cycle_check (is_ancestor four_images 4) (drop 2 four_images) = Inl (DoozerFatalError_cycle ''q'' ''p'')"
  using anc_p_q by (simp add: four_images_def)

text \<open>
  Claim C2 as stated fails. Each of the three checks raises for the first offender only:
  the second duplicated key, the second colliding name and the second cycle are offenders
  on their own and are not named in the error raised.
\<close>

theorem first_offender_counterexample:
  "no_collide_check [] four_metas =
     Inl (IOError_duplicate_distgit ''containers/a/#rhaos-4.14'' ''a-copy.yml'' ''a.yml'')
   \<and> ''containers/c/#rhaos-4.14'' \<in> set (spec_duplicate_keys four_metas)
   \<and> ''containers/c/#rhaos-4.14'' \<notin>
        set (named_in (IOError_duplicate_distgit ''containers/a/#rhaos-4.14'' ''a-copy.yml'' ''a.yml''))
   \<and> register_names four_entries no_names = Inl (ValueError_name_in_bundle ''a2'' ''a'' ''a'')
   \<and> register_names (drop 2 four_entries) no_names =
        Inl (ValueError_name_in_bundle ''c2'' ''shared'' ''c'')
   \<and> ''shared'' \<notin> set (named_in (ValueError_name_in_bundle ''a2'' ''a'' ''a''))
   \<and> cycle_check (is_ancestor four_images 4) four_images = Inl (DoozerFatalError_cycle ''y'' ''x'')
   \<and> cycle_check (is_ancestor four_images 4) (drop 2 four_images) =
        Inl (DoozerFatalError_cycle ''q'' ''p'')
   \<and> ''q'' \<notin> set (named_in (DoozerFatalError_cycle ''y'' ''x''))"
  by (simp add: dup_metas dup_keys dup_names dup_names_2 cycles cycles_2)

text \<open>
  Claim C2, amended. The cycle check, the registration of names in bundle and the duplicate
  distgit check each raise at the first offender in iteration order, whatever follows it:
  the error names the child and the image of the first pair for which \<open>is_ancestor\<close>
  holds; the image, the name and the owner of the first name already registered (or is the
  \<open>IndexError\<close> of a name without a slash); the key and the two config files of the first
  key seen before.
\<close>

theorem checks_stop_at_first_offender:
  "(cycle_check anc pre = Inr () \<and> children i = cs1 @ c # cs2
      \<and> list_all (\<lambda>c'. \<not> anc (distgit_key i) c') cs1 \<and> anc (distgit_key i) c
    \<longrightarrow> cycle_check anc (pre @ i # post) = Inl (DoozerFatalError_cycle c (distgit_key i)))
 \<and> (register_names pre_entries m = Inr m' \<and> register_names [img] m' = Inl e
    \<longrightarrow> register_names (pre_entries @ img # post_entries) m = Inl e
        \<and> (e = IndexError \<or>
            (\<exists>n owner. e = ValueError_name_in_bundle (entry_key img) n owner
                        \<and> name_in_bundle_map m' n = Some owner)))
 \<and> (rpm_metas @ image_metas = pre_metas @ mt # post_metas
      \<and> no_collide_loop pre_metas Map.empty = Inr seen \<and> seen (collide_key mt) = Some other
    \<longrightarrow> no_collide_check rpm_metas image_metas =
          Inl (IOError_duplicate_distgit (collide_key mt) (config_filename mt)
                 (config_filename other)))"
  using cycle_check_first[of anc pre i cs1 c cs2 post]
        register_names_first[of pre_entries m m' img e post_entries]
        register_names_single_error[of img m' e]
        no_collide_first[of rpm_metas image_metas pre_metas mt post_metas seen other]
  by blast

theorem checks_stop_at_first_offender_witness:
  "is_ancestor four_images 4 ''x'' ''y''
   \<and> cycle_check (is_ancestor four_images 4) four_images = Inl (DoozerFatalError_cycle ''y'' ''x'')
   \<and> register_names [four_entries ! 1] (projr (register_names [four_entries ! 0] no_names))
        = Inl (ValueError_name_in_bundle ''a2'' ''a'' ''a'')
   \<and> register_names four_entries no_names = Inl (ValueError_name_in_bundle ''a2'' ''a'' ''a'')
   \<and> no_collide_loop [four_metas ! 0] Map.empty
        = Inr [''containers/a/#rhaos-4.14'' \<mapsto> four_metas ! 0]
   \<and> no_collide_check [] four_metas =
        Inl (IOError_duplicate_distgit ''containers/a/#rhaos-4.14'' ''a-copy.yml'' ''a.yml'')"
proof -
  let ?anc = "is_ancestor four_images 4"
  let ?x = "four_images ! 0"
  have c1: "cycle_check ?anc [] = Inr ()" by simp
  have c2: "children ?x = [] @ ''y'' # []" by (simp add: four_images_def)
  have c3: "list_all (\<lambda>c'. \<not> ?anc (distgit_key ?x) c') []" by simp
  have c4: "?anc (distgit_key ?x) ''y''" using anc_x_y by (simp add: four_images_def)
  have c5: "[] @ ?x # drop 1 four_images = four_images" by (simp add: four_images_def)
  have c6: "distgit_key ?x = ''x''" by (simp add: four_images_def)
  obtain m' where r1: "register_names [four_entries ! 0] no_names = Inr m'"
    by (simp add: four_entries_def no_names_def split_ose_a register_name_in_bundle_def
          startswith_def Let_def del: split_on.simps)
  have r2: "register_names [four_entries ! 1] m' = Inl (ValueError_name_in_bundle ''a2'' ''a'' ''a'')"
    using r1
    by (auto simp add: four_entries_def no_names_def split_ose_a split_a register_name_in_bundle_def
          startswith_def Let_def simp del: split_on.simps)
  have r3: "[four_entries ! 0] @ four_entries ! 1 # drop 2 four_entries = four_entries"
    by (simp add: four_entries_def)
  let ?seen = "[''containers/a/#rhaos-4.14'' \<mapsto> four_metas ! 0]"
  have d1: "[] @ four_metas = [four_metas ! 0] @ four_metas ! 1 # drop 2 four_metas"
    by (simp add: four_metas_def)
  have d2: "no_collide_loop [four_metas ! 0] Map.empty = Inr ?seen"
    by (simp add: four_metas_def collide_key_meta_of)
  have d3: "?seen (collide_key (four_metas ! 1)) = Some (four_metas ! 0)"
    by (simp add: four_metas_def collide_key_meta_of)
  have d4: "collide_key (four_metas ! 1) = ''containers/a/#rhaos-4.14''"
           "config_filename (four_metas ! 1) = ''a-copy.yml''"
           "config_filename (four_metas ! 0) = ''a.yml''"
    by (simp_all add: four_metas_def collide_key_meta_of) (simp_all add: meta_of_def)
  note t = checks_stop_at_first_offender[of ?anc "[]" ?x "[]" "''y''" "[]" "drop 1 four_images"
        "[four_entries ! 0]" no_names m' "four_entries ! 1" "ValueError_name_in_bundle ''a2'' ''a'' ''a''"
        "drop 2 four_entries" "[]" four_metas "[four_metas ! 0]" "four_metas ! 1" "drop 2 four_metas"
        ?seen "four_metas ! 0"]
  have k1: "cycle_check ?anc four_images = Inl (DoozerFatalError_cycle ''y'' ''x'')"
    using t c1 c2 c3 c4 c5 c6 by metis
  have k2: "register_names four_entries no_names = Inl (ValueError_name_in_bundle ''a2'' ''a'' ''a'')"
    using t r1 r2 r3 by metis
  have k3: "no_collide_check [] four_metas =
        Inl (IOError_duplicate_distgit ''containers/a/#rhaos-4.14'' ''a-copy.yml'' ''a.yml'')"
    using t d1 d2 d3 d4 by metis
  show ?thesis using c4 c6 k1 k2 k3 r1 r2 d2 by simp
qed

section \<open>Properties of the pooled sessions\<close>

lemma length_update_le: "length (AList.update k v al) \<le> Suc (length al)"
  by (induction al) auto

lemma lease_attempt_bound:
  "length (session_pool st) \<le> 30 \<Longrightarrow> length (session_pool (snd (lease_attempt fresh st))) \<le> 30"
  using length_update_le[of "length (session_pool st)" "next_session st" "session_pool st"]
  by (auto simp: lease_attempt_def Let_def split: prod.splits)

lemma reachable_bound: "reachable st \<Longrightarrow> length (session_pool st) \<le> 30"
proof (induction rule: reachable.induct)
  case (start h)
  show ?case by (simp add: initial_pool_def)
next
  case (attempt st fresh)
  then show ?case by (simp add: lease_attempt_bound)
next
  case (flag st s v)
  then show ?case by (simp add: set_caching_def)
next
  case (release st session_id s)
  then show ?case by (simp add: put_back_def)
qed

lemma lease_attempt_wait:
  "session_pool_available st = [] \<Longrightarrow> length (session_pool st) \<ge> 30 \<Longrightarrow>
   lease_attempt fresh st = (Wait, st)"
  by (simp add: lease_attempt_def)

lemma acquire_wait:
  "session_pool_available st = [] \<Longrightarrow> length (session_pool st) \<ge> 30 \<Longrightarrow>
   acquire (Suc n) fresh env st sleeps = acquire n fresh env (env st) (sleeps @ [5])"
  by (simp add: lease_attempt_wait)

lemma finally_effect:
  "force_instance_caching (store (put_back session_id s (set_caching s False st2)) s) = False
   \<and> map_of (session_pool_available (put_back session_id s (set_caching s False st2))) session_id
       = Some s"
  by (simp add: put_back_def set_caching_def update_conv')

lemma with_block:
  assumes "acquire n fresh env st [] = Some ((session_id, s), st1, sleeps)"
      and "body s (set_caching s caching st1) = (outcome, st2)"
  shows "pooled_koji_client_session n fresh env caching body st =
           Some (outcome, put_back session_id s (set_caching s False st2), sleeps)"
  using assms by (simp add: pooled_koji_client_session_def)

text \<open>
  Claim C6. In every state that threads running \<open>pooled_koji_client_session\<close> can reach,
  the pool holds at most 30 sessions. With no session available and the pool at capacity, a
  pass through the loop leaves the state as it is, and the caller sleeps 5 time units and
  makes the whole decision again. Once a session is leased, the body runs with the caching
  flag as requested, and whether the body ends normally or with an exception, the context
  manager ends with the flag of the leased session False and the session back in the
  available set under its id; the \<open>finally\<close> block does not change the pool.
\<close>

theorem pooled_session_contract:
  "(reachable st \<longrightarrow> length (session_pool st) \<le> 30)
 \<and> (session_pool_available st = [] \<and> length (session_pool st) \<ge> 30 \<longrightarrow>
      lease_attempt fresh st = (Wait, st)
      \<and> acquire (Suc n) fresh env st sleeps = acquire n fresh env (env st) (sleeps @ [5]))
 \<and> (acquire n fresh env st [] = Some ((session_id, s), st1, slept)
      \<and> body s (set_caching s caching st1) = (outcome, st2) \<longrightarrow>
      force_instance_caching (store (set_caching s caching st1) s) = caching
      \<and> (\<exists>st'. pooled_koji_client_session n fresh env caching body st = Some (outcome, st', slept)
                \<and> force_instance_caching (store st' s) = False
                \<and> map_of (session_pool_available st') session_id = Some s
                \<and> session_pool st' = session_pool st2))"
proof -
  have 1: "reachable st \<longrightarrow> length (session_pool st) \<le> 30"
    using reachable_bound by blast
  have 2: "session_pool_available st = [] \<and> length (session_pool st) \<ge> 30 \<longrightarrow>
      lease_attempt fresh st = (Wait, st)
      \<and> acquire (Suc n) fresh env st sleeps = acquire n fresh env (env st) (sleeps @ [5])"
    using lease_attempt_wait acquire_wait by blast
  have 3: "acquire n fresh env st [] = Some ((session_id, s), st1, slept)
      \<and> body s (set_caching s caching st1) = (outcome, st2) \<longrightarrow>
      force_instance_caching (store (set_caching s caching st1) s) = caching
      \<and> (\<exists>st'. pooled_koji_client_session n fresh env caching body st = Some (outcome, st', slept)
                \<and> force_instance_caching (store st' s) = False
                \<and> map_of (session_pool_available st') session_id = Some s
                \<and> session_pool st' = session_pool st2)"
  proof
    assume h: "acquire n fresh env st [] = Some ((session_id, s), st1, slept)
      \<and> body s (set_caching s caching st1) = (outcome, st2)"
    let ?st' = "put_back session_id s (set_caching s False st2)"
    have a: "pooled_koji_client_session n fresh env caching body st = Some (outcome, ?st', slept)"
      using with_block h by blast
    have b: "force_instance_caching (store (set_caching s caching st1) s) = caching"
      by (simp add: set_caching_def)
    have c: "session_pool ?st' = session_pool st2" by (simp add: put_back_def set_caching_def)
    show "force_instance_caching (store (set_caching s caching st1) s) = caching
      \<and> (\<exists>st'. pooled_koji_client_session n fresh env caching body st = Some (outcome, st', slept)
                \<and> force_instance_caching (store st' s) = False
                \<and> map_of (session_pool_available st') session_id = Some s
                \<and> session_pool st' = session_pool st2)"
      using a b c finally_effect[of session_id s st2] by blast
  qed
  show ?thesis using 1 2 3 by blast
qed

lemma first_lease:
  "lease_attempt plain_session empty_pool =
     (Leased 0 0, \<lparr>store = (\<lambda>a. plain_session), next_session = Suc 0,
                   session_pool = [(0, 0)], session_pool_available = []\<rparr>)"
  by (simp add: lease_attempt_def empty_pool_def initial_pool_def Let_def fun_upd_idem)

lemma full_pool_facts:
  "session_pool_available full_pool = [] \<and> length (session_pool full_pool) \<ge> 30"
  by (simp add: full_pool_def)

theorem pooled_session_contract_witness:
  "reachable (snd (lease_attempt plain_session empty_pool))
   \<and> length (session_pool (snd (lease_attempt plain_session empty_pool))) \<le> 30
   \<and> session_pool_available full_pool = [] \<and> length (session_pool full_pool) \<ge> 30
   \<and> lease_attempt plain_session full_pool = (Wait, full_pool)
   \<and> acquire (Suc 0) plain_session quiet full_pool [] = acquire 0 plain_session quiet full_pool [5]
   \<and> acquire (Suc 0) plain_session quiet empty_pool []
        = Some ((0, 0), snd (lease_attempt plain_session empty_pool), [])
   \<and> (\<exists>st'. pooled_koji_client_session (Suc 0) plain_session quiet True failing_body empty_pool
               = Some (Inl ''koji call failed'', st', [])
            \<and> force_instance_caching (store st' 0) = False
            \<and> map_of (session_pool_available st') 0 = Some 0)"
proof -
  let ?st1 = "snd (lease_attempt plain_session empty_pool)"
  have r: "reachable ?st1"
    unfolding empty_pool_def by (rule reachable.attempt) (rule reachable.start)
  have a: "acquire (Suc 0) plain_session quiet empty_pool [] = Some ((0, 0), ?st1, [])"
    by (simp add: first_lease)
  have b: "failing_body 0 (set_caching 0 True ?st1) = (Inl ''koji call failed'', set_caching 0 True ?st1)"
    by (simp add: failing_body_def)
  have q: "quiet full_pool = full_pool" by (simp add: quiet_def)
  note t1 = pooled_session_contract[of ?st1]
  note t2 = pooled_session_contract[of full_pool plain_session 0 quiet "[]"]
  note t3 = pooled_session_contract[of empty_pool plain_session "Suc 0" quiet "[]" 0 0 ?st1 "[]"
              failing_body True "Inl ''koji call failed''" "set_caching 0 True ?st1"]
  have k1: "length (session_pool ?st1) \<le> 30" using t1 r by blast
  have k2: "lease_attempt plain_session full_pool = (Wait, full_pool)
      \<and> acquire (Suc 0) plain_session quiet full_pool [] = acquire 0 plain_session quiet full_pool [5]"
    using t2 full_pool_facts q by simp
  have k3: "\<exists>st'. pooled_koji_client_session (Suc 0) plain_session quiet True failing_body empty_pool
               = Some (Inl ''koji call failed'', st', [])
            \<and> force_instance_caching (store st' 0) = False
            \<and> map_of (session_pool_available st') 0 = Some 0"
    using t3 a b by blast
  show ?thesis using r k1 k2 k3 a full_pool_facts by blast
qed

section \<open>Properties of the build order\<close>











































end
